theory Spec2Isabelle
  imports Main "HOL-Library.Word"
begin

unbundle bit_operations_syntax

section \<open>Validation types\<close>

subsection \<open>BackendValidationSeverity\<close>

text \<open>
  \<^verbatim>\<open>export enum BackendValidationSeverity { Error = 1, Warning = 2, Informational = 3, Success = 5 }\<close>
  A numeric enum: its members are the constructors, its numbers are given by
  \<open>BackendValidationSeverity_value\<close>.
\<close>

datatype BackendValidationSeverity = Error | Warning | Informational | Success

fun BackendValidationSeverity_value :: "BackendValidationSeverity \<Rightarrow> int" where
  "BackendValidationSeverity_value Error = 1"
| "BackendValidationSeverity_value Warning = 2"
| "BackendValidationSeverity_value Informational = 3"
| "BackendValidationSeverity_value Success = 5"

subsection \<open>ValidationMask\<close>

text \<open>
  The enum of validation categories and of the masks that collect them. The member
  \<^verbatim>\<open>All\<close> is written \<open>All_mask\<close>, since \<open>All\<close> is the universal quantifier of HOL.
  The numbers are the binary literals of the source; the bitwise operators of JavaScript
  work on 32-bit integers, so the values are 32-bit words.
\<close>

datatype ValidationMask =
    Schema
  | Component
  | Expression
  | CustomBackend
  | Required
  | AllExceptRequired
  | All_mask
  | Backend
  | AllIncludingBackend

fun ValidationMask_value :: "ValidationMask \<Rightarrow> 32 word" where
  "ValidationMask_value Schema              = 0b0000000000000001"
| "ValidationMask_value Component           = 0b0000000000000010"
| "ValidationMask_value Expression          = 0b0000000000000100"
| "ValidationMask_value CustomBackend       = 0b0000000000001000"
| "ValidationMask_value Required            = 0b0100000000000000"
| "ValidationMask_value AllExceptRequired   = 0b0011111111111111"
| "ValidationMask_value All_mask            = 0b0111111111111111"
| "ValidationMask_value Backend             = 0b1000000000000000"
| "ValidationMask_value AllIncludingBackend = 0b1111111111111111"

text \<open>
  The six members that stand for one validation category each; the other three
  (\<open>AllExceptRequired\<close>, \<open>All_mask\<close>, \<open>AllIncludingBackend\<close>) are the collections.
\<close>

definition atomic_categories :: "ValidationMask list" where
  "atomic_categories = [Schema, Component, Expression, CustomBackend, Required, Backend]"

text \<open>The number of bits set in a mask, and the bits of a mask that no category owns.\<close>

definition bits_set :: "32 word \<Rightarrow> nat list" where
  "bits_set w = filter (bit w) [0..<32]"

definition category_bits :: "32 word" where
  "category_bits = fold (\<lambda>m acc. acc OR ValidationMask_value m) atomic_categories 0"

definition unowned_bits :: "32 word \<Rightarrow> 32 word" where
  "unowned_bits w = w AND NOT category_bits"

section \<open>The queue slice\<close>

text \<open>
  \<^verbatim>\<open>const commonState = { isDone: null, error: null }\<close>: the state of one task of the
  queue. \<open>None\<close> is \<^verbatim>\<open>null\<close>; the type \<open>'e\<close> is the type of the error values.
\<close>

record 'e ITaskState =
  isDone :: "bool option"
  error :: "'e option"

record 'e IQueueState =
  dataTask :: "'e ITaskState"
  appTask :: "'e ITaskState"
  userTask :: "'e ITaskState"
  infoTask :: "'e ITaskState"
  stateless :: "'e ITaskState"

definition commonState :: "'e ITaskState" where
  "commonState = \<lparr>isDone = None, error = None\<rparr>"

definition initialState :: "'e IQueueState" where
  "initialState = \<lparr>dataTask = commonState, appTask = commonState, userTask = commonState,
     infoTask = commonState, stateless = commonState\<rparr>"

text \<open>The payload \<^verbatim>\<open>IQueueError\<close> of the error actions: \<^verbatim>\<open>{ error }\<close>.\<close>

datatype 'e IQueueError = IQueueError (payload_error: "'e option")

text \<open>The actions of the slice, in the order of the source.\<close>

datatype 'e QueueAction =
    appTaskQueueError "'e IQueueError"
  | userTaskQueueError "'e IQueueError"
  | dataTaskQueueError "'e IQueueError"
  | infoTaskQueueError "'e IQueueError"
  | statelessQueueError "'e IQueueError"
  | startInitialAppTaskQueue
  | startInitialAppTaskQueueFulfilled
  | startInitialDataTaskQueue
  | startInitialDataTaskQueueFulfilled
  | startInitialInfoTaskQueue
  | startInitialInfoTaskQueueFulfilled
  | startInitialStatelessQueue
  | startInitialStatelessQueueFulfilled

text \<open>
  The reducers of the slice. Each one mutates one field of one task of the draft state;
  here the updated state is returned.
\<close>

fun queue_reducer :: "'e IQueueState \<Rightarrow> 'e QueueAction \<Rightarrow> 'e IQueueState" where
  "queue_reducer state (appTaskQueueError payload) =
     state\<lparr>appTask := (appTask state)\<lparr>error := payload_error payload\<rparr>\<rparr>"
| "queue_reducer state (userTaskQueueError payload) =
     state\<lparr>userTask := (userTask state)\<lparr>error := payload_error payload\<rparr>\<rparr>"
| "queue_reducer state (dataTaskQueueError payload) =
     state\<lparr>dataTask := (dataTask state)\<lparr>error := payload_error payload\<rparr>\<rparr>"
| "queue_reducer state (infoTaskQueueError payload) =
     state\<lparr>infoTask := (infoTask state)\<lparr>error := payload_error payload\<rparr>\<rparr>"
| "queue_reducer state (statelessQueueError payload) =
     state\<lparr>stateless := (stateless state)\<lparr>error := payload_error payload\<rparr>\<rparr>"
| "queue_reducer state startInitialAppTaskQueue =
     state\<lparr>appTask := (appTask state)\<lparr>isDone := Some False\<rparr>\<rparr>"
| "queue_reducer state startInitialAppTaskQueueFulfilled =
     state\<lparr>appTask := (appTask state)\<lparr>isDone := Some True\<rparr>\<rparr>"
| "queue_reducer state startInitialDataTaskQueue =
     state\<lparr>dataTask := (dataTask state)\<lparr>isDone := Some False\<rparr>\<rparr>"
| "queue_reducer state startInitialDataTaskQueueFulfilled =
     state\<lparr>dataTask := (dataTask state)\<lparr>isDone := Some True\<rparr>\<rparr>"
| "queue_reducer state startInitialInfoTaskQueue =
     state\<lparr>infoTask := (infoTask state)\<lparr>isDone := Some False\<rparr>\<rparr>"
| "queue_reducer state startInitialInfoTaskQueueFulfilled =
     state\<lparr>infoTask := (infoTask state)\<lparr>isDone := Some True\<rparr>\<rparr>"
| "queue_reducer state startInitialStatelessQueue =
     state\<lparr>stateless := (stateless state)\<lparr>isDone := Some False\<rparr>\<rparr>"
| "queue_reducer state startInitialStatelessQueueFulfilled =
     state\<lparr>stateless := (stateless state)\<lparr>isDone := Some True\<rparr>\<rparr>"

section \<open>App lists\<close>

subsection \<open>Data\<close>

text \<open>
  A mapping \<^verbatim>\<open>{ [field]: queryParameter }\<close> is a JavaScript object with string keys: the
  list of its entries in the order of \<^verbatim>\<open>Object.keys\<close>, the keys pairwise distinct.
  \<^verbatim>\<open>undefined\<close> and \<^verbatim>\<open>null\<close> are \<open>None\<close>.
\<close>

type_synonym IMapping = "(string \<times> string) list"

text \<open>A list component of a layout, as \<^verbatim>\<open>fetchAppListsSaga\<close> reads it.\<close>

record ILayoutCompList =
  appListId :: "string option"
  mapping :: "IMapping option"
  secure :: "bool option"

text \<open>\<^verbatim>\<open>IAppListsMetaData\<close>: \<^verbatim>\<open>{ id, mapping, secure }\<close>.\<close>

record IAppListsMetaData =
  id_md :: "string option"
  mapping_md :: "IMapping option"
  secure_md :: "bool option"

text \<open>The result of \<^verbatim>\<open>getAppListLookupKeys\<close>: \<^verbatim>\<open>{ keys, keyWithIndexIndicator }\<close>.\<close>

record IAppListLookupKeys =
  keys :: "IAppListsMetaData list option"
  keyWithIndexIndicator :: "IAppListsMetaData option"

text \<open>\<^verbatim>\<open>IFetchSpecificAppListSaga\<close>: \<^verbatim>\<open>{ appListId, dataMapping, secure }\<close>.\<close>

record IFetchSpecificAppListSaga =
  appListId_arg :: "string option"
  dataMapping :: "IMapping option"
  secure_arg :: "bool option"


subsection \<open>Effects\<close>

datatype selector =
    formLayoutSelector
  | formDataSelector
  | appListsSelector
  | appListsWithIndexIndicatorsSelector
  | instanceIdSelector
  | repeatingGroupsSelector
  | appLanguageStateSelector

text \<open>The actions of \<^verbatim>\<open>appListsActions\<close> that the sagas dispatch.\<close>

datatype ('e, 'l) AppListsAction =
    fetching string IAppListsMetaData
  | fetchFulfilled string 'l
  | fetchRejected string 'e
  | setAppListsWithIndexIndicators "IAppListsMetaData list"

text \<open>
  The effects the sagas yield. \<open>Fork\<close> always forks \<^verbatim>\<open>fetchSpecificAppListSaga\<close>, and
  \<open>Call\<close> always calls \<^verbatim>\<open>get\<close>, so the effect keeps the argument only.
\<close>

datatype ('e, 'l) effect =
    Select selector
  | SelectNotNull selector
  | Put "('e, 'l) AppListsAction"
  | Fork IFetchSpecificAppListSaga
  | Call string

text \<open>
  A run of a saga: the effects it yields, in order, and then either the value it returns
  (\<open>Inr\<close>) or the error it throws (\<open>Inl\<close>).
\<close>

type_synonym ('e, 'l, 'a) saga = "('e, 'l) effect list \<times> ('e + 'a)"



text \<open>A step that yields no effect and returns a value or throws.\<close>

definition step :: "'e + 'a \<Rightarrow> ('e, 'l, 'a) saga" where
  "step r = ([], r)"



text \<open>The actions a run dispatches, in order.\<close>

fun dispatched :: "('e, 'l) effect list \<Rightarrow> ('e, 'l) AppListsAction list" where
  "dispatched [] = []"
| "dispatched (Put a # xs) = a # dispatched xs"
| "dispatched (x # xs) = dispatched xs"

text \<open>The arguments of the sagas a run forks, in order.\<close>

fun forked :: "('e, 'l) effect list \<Rightarrow> IFetchSpecificAppListSaga list" where
  "forked [] = []"
| "forked (Fork a # xs) = a # forked xs"
| "forked (x # xs) = forked xs"

subsection \<open>fetchAppListsSaga\<close>

text \<open>
  The truth value of \<^verbatim>\<open>appListId\<close> in \<^verbatim>\<open>if (appListId && ...)\<close>: \<^verbatim>\<open>undefined\<close>
  and the empty string are false.
\<close>

definition truthy :: "string option \<Rightarrow> bool" where
  "truthy s = (case s of None \<Rightarrow> False | Some v \<Rightarrow> v \<noteq> [])"

text \<open>
  The local variables of \<^verbatim>\<open>fetchAppListsSaga\<close>: its two arrays, and the effects it has
  yielded so far.
\<close>

record ('e, 'l) fetch_locals =
  fetchedAppLists :: "string list"
  appListsWithIndexIndicators :: "IAppListsMetaData list"
  yielded :: "('e, 'l) effect list"

text \<open>
  The body of \<^verbatim>\<open>for (const appListsObject of keys)\<close>. The helper
  \<^verbatim>\<open>getAppListLookupKey\<close> of \<^verbatim>\<open>src/utils/applist\<close> is a parameter.
\<close>

definition fetch_key_step ::
  "(string option \<Rightarrow> IMapping option \<Rightarrow> string) \<Rightarrow> string option \<Rightarrow> IAppListsMetaData
   \<Rightarrow> ('e, 'l) fetch_locals \<Rightarrow> ('e, 'l) fetch_locals" where
  "fetch_key_step getAppListLookupKey appListId' appListsObject st =
     (let lookupKey = getAppListLookupKey (id_md appListsObject) (mapping_md appListsObject) in
      if truthy appListId' \<and> lookupKey \<notin> set (fetchedAppLists st)
      then st\<lparr>yielded := yielded st @
                 [Fork \<lparr>appListId_arg = appListId', dataMapping = mapping_md appListsObject,
                        secure_arg = secure_md appListsObject\<rparr>],
               fetchedAppLists := fetchedAppLists st @ [lookupKey]\<rparr>
      else st)"

text \<open>
  The body of \<^verbatim>\<open>for (const element of layouts[layoutId])\<close>. The helper
  \<^verbatim>\<open>getAppListLookupKeys\<close> is a parameter; \<open>'r\<close> is the type of the repeating groups,
  which the saga only hands to it. With no keys (\<^verbatim>\<open>!keys?.length\<close>) the loop continues.
\<close>

definition fetch_element_step ::
  "(string option \<Rightarrow> IMapping option \<Rightarrow> bool option \<Rightarrow> 'r \<Rightarrow> IAppListLookupKeys)
   \<Rightarrow> (string option \<Rightarrow> IMapping option \<Rightarrow> string) \<Rightarrow> 'r \<Rightarrow> ILayoutCompList
   \<Rightarrow> ('e, 'l) fetch_locals \<Rightarrow> ('e, 'l) fetch_locals" where
  "fetch_element_step getAppListLookupKeys getAppListLookupKey repeatingGroups element st =
     (let r = getAppListLookupKeys (appListId element) (mapping element) (secure element)
                repeatingGroups;
          st1 = (case keyWithIndexIndicator r of
                   Some k \<Rightarrow> st\<lparr>appListsWithIndexIndicators :=
                                  appListsWithIndexIndicators st @ [k]\<rparr>
                 | None \<Rightarrow> st)
      in case keys r of
           None \<Rightarrow> st1
         | Some ks \<Rightarrow> if ks = [] then st1
                      else fold (fetch_key_step getAppListLookupKey (appListId element)) ks st1)"

text \<open>
  The two loops of \<^verbatim>\<open>fetchAppListsSaga\<close>, from the empty arrays. The layouts are the
  entries of the \<^verbatim>\<open>layouts\<close> object in the order of \<^verbatim>\<open>Object.keys\<close>; \<open>layouts\<close>
  and \<open>repeatingGroups\<close> are the answers to the two \<^verbatim>\<open>selectNotNull\<close> effects.
\<close>

definition fetchAppListsSaga_loops ::
  "(string option \<Rightarrow> IMapping option \<Rightarrow> bool option \<Rightarrow> 'r \<Rightarrow> IAppListLookupKeys)
   \<Rightarrow> (string option \<Rightarrow> IMapping option \<Rightarrow> string)
   \<Rightarrow> (string \<times> ILayoutCompList list) list \<Rightarrow> 'r \<Rightarrow> ('e, 'l) fetch_locals" where
  "fetchAppListsSaga_loops getAppListLookupKeys getAppListLookupKey layouts repeatingGroups =
     fold (\<lambda>(layoutId, elements).
             fold (fetch_element_step getAppListLookupKeys getAppListLookupKey repeatingGroups)
               elements)
       layouts
       \<lparr>fetchedAppLists = [], appListsWithIndexIndicators = [],
        yielded = [SelectNotNull formLayoutSelector, SelectNotNull repeatingGroupsSelector]\<rparr>"

definition fetchAppListsSaga ::
  "(string option \<Rightarrow> IMapping option \<Rightarrow> bool option \<Rightarrow> 'r \<Rightarrow> IAppListLookupKeys)
   \<Rightarrow> (string option \<Rightarrow> IMapping option \<Rightarrow> string)
   \<Rightarrow> (string \<times> ILayoutCompList list) list \<Rightarrow> 'r \<Rightarrow> ('e, 'l, unit) saga" where
  "fetchAppListsSaga getAppListLookupKeys getAppListLookupKey layouts repeatingGroups =
     (let st = fetchAppListsSaga_loops getAppListLookupKeys getAppListLookupKey layouts
                 repeatingGroups
      in (yielded st @
            [Put (setAppListsWithIndexIndicators (appListsWithIndexIndicators st))],
          Inr ()))"

subsection \<open>fetchSpecificAppListSaga\<close>


subsection \<open>checkIfAppListsShouldRefetchSaga\<close>

text \<open>
  The body of the first loop, over the entries of the stored app lists. The state of the
  loop is the flag \<^verbatim>\<open>foundInExistingAppLists\<close> and the effects yielded so far.
  \<^verbatim>\<open>dataMapping && ...\<close> is false for \<^verbatim>\<open>undefined\<close>.
\<close>

definition refetch_existing_step ::
  "string \<Rightarrow> string \<times> IAppListsMetaData \<Rightarrow> bool \<times> ('e, 'l) effect list
   \<Rightarrow> bool \<times> ('e, 'l) effect list" where
  "refetch_existing_step field entry st =
     (case mapping_md (snd entry) of
        None \<Rightarrow> st
      | Some dataMapping' \<Rightarrow>
          if field \<in> set (map fst dataMapping')
          then (True, snd st @
                  [Fork \<lparr>appListId_arg = id_md (snd entry), dataMapping = Some dataMapping',
                         secure_arg = secure_md (snd entry)\<rparr>])
          else st)"

text \<open>
  The assignment \<^verbatim>\<open>obj[key] = value\<close> on an object: the value of an existing key is
  replaced where it stands, a new key goes last.
\<close>

fun obj_set :: "(string \<times> 'v) list \<Rightarrow> string \<Rightarrow> 'v \<Rightarrow> (string \<times> 'v) list" where
  "obj_set [] k v = [(k, v)]"
| "obj_set (p # ps) k v = (if fst p = k then (k, v) # ps else p # obj_set ps k v)"

text \<open>
  \<^verbatim>\<open>for (const key of Object.keys(mapping)) newDataMapping[replace...(key, keys)] = mapping[key]\<close>,
  from the empty object. The helper \<^verbatim>\<open>replaceIndexIndicatorsWithIndexes\<close> of
  \<^verbatim>\<open>src/utils/databindings\<close> is a parameter.
\<close>

definition newDataMapping :: "(string \<Rightarrow> nat list \<Rightarrow> string) \<Rightarrow> nat list \<Rightarrow> IMapping \<Rightarrow> IMapping" where
  "newDataMapping replaceIndexIndicatorsWithIndexes keys' mapping' =
     fold (\<lambda>(key, v) acc. obj_set acc (replaceIndexIndicatorsWithIndexes key keys') v)
       mapping' []"

text \<open>
  The test of the second loop: the mapping is there, and one of its keys without its
  index indicators is the changed field without its indices.
\<close>

definition template_matches ::
  "(string \<Rightarrow> string) \<Rightarrow> (string \<Rightarrow> string) \<Rightarrow> string \<Rightarrow> IAppListsMetaData \<Rightarrow> bool" where
  "template_matches getKeyWithoutIndexIndicators getKeyWithoutIndex field appLists =
     (case mapping_md appLists of
        None \<Rightarrow> False
      | Some mapping' \<Rightarrow>
          getKeyWithoutIndex field \<in> set (map (\<lambda>key. getKeyWithoutIndexIndicators key)
                                              (map fst mapping')))"

text \<open>The body of the second loop, over the app lists with index indicators.\<close>

definition refetch_template_step ::
  "(string \<Rightarrow> string) \<Rightarrow> (string \<Rightarrow> string) \<Rightarrow> (string \<Rightarrow> nat list)
   \<Rightarrow> (string \<Rightarrow> nat list \<Rightarrow> string) \<Rightarrow> string \<Rightarrow> IAppListsMetaData
   \<Rightarrow> ('e, 'l) effect list \<Rightarrow> ('e, 'l) effect list" where
  "refetch_template_step getKeyWithoutIndexIndicators getKeyWithoutIndex getKeyIndex
     replaceIndexIndicatorsWithIndexes field appLists ys =
     (if template_matches getKeyWithoutIndexIndicators getKeyWithoutIndex field appLists
      then (case mapping_md appLists of
              None \<Rightarrow> ys
            | Some mapping' \<Rightarrow>
                (let keys' = getKeyIndex field;
                     newDataMapping' =
                       newDataMapping replaceIndexIndicatorsWithIndexes keys' mapping'
                 in ys @ [Fork \<lparr>appListId_arg = id_md appLists,
                                dataMapping = Some newDataMapping',
                                secure_arg = secure_md appLists\<rparr>]))
      else ys)"

text \<open>
  The saga. \<open>appLists\<close> (the entries of the store's object, in the order of
  \<^verbatim>\<open>Object.keys\<close>) and \<open>appListsWithIndexIndicators\<close> are the answers to the two
  \<^verbatim>\<open>select\<close> effects; \<open>field\<close> is the field of the payload. The four helpers of
  \<^verbatim>\<open>src/utils/databindings\<close> are parameters.
\<close>

definition checkIfAppListsShouldRefetchSaga ::
  "(string \<Rightarrow> string) \<Rightarrow> (string \<Rightarrow> string) \<Rightarrow> (string \<Rightarrow> nat list)
   \<Rightarrow> (string \<Rightarrow> nat list \<Rightarrow> string) \<Rightarrow> string \<Rightarrow> (string \<times> IAppListsMetaData) list
   \<Rightarrow> IAppListsMetaData list \<Rightarrow> ('e, 'l, unit) saga" where
  "checkIfAppListsShouldRefetchSaga getKeyWithoutIndexIndicators getKeyWithoutIndex getKeyIndex
     replaceIndexIndicatorsWithIndexes field appLists appListsWithIndexIndicators' =
     (let st = fold (refetch_existing_step field) appLists
                 (False, [Select appListsSelector, Select appListsWithIndexIndicatorsSelector])
      in if fst st then (snd st, Inr ())
         else (fold (refetch_template_step getKeyWithoutIndexIndicators getKeyWithoutIndex
                       getKeyIndex replaceIndexIndicatorsWithIndexes field)
                 appListsWithIndexIndicators' (snd st),
               Inr ()))"

subsection \<open>The helpers that are not part of the sources\<close>

text \<open>
  The sagas are modelled with their helper functions as parameters, and the theorems
  below hold for every choice of them. To run the sagas on concrete inputs, the
  helpers are given here as the specification describes them.
\<close>

text \<open>
  Modelled from the spec: the Key Codec (\<^verbatim>\<open>src/utils/databindings\<close>, which is not among
  the sources). A field path is a dotted path; a segment of digits is a row index, a
  segment in braces is an index placeholder (\<^verbatim>\<open>persons.1.name\<close>,
  \<^verbatim>\<open>persons.{0}.name\<close>).
\<close>

fun split_path :: "string \<Rightarrow> string list" where
  "split_path [] = [[]]"
| "split_path (c # cs) =
     (if c = CHR ''.'' then [] # split_path cs
      else (case split_path cs of [] \<Rightarrow> [[c]] | s # ss \<Rightarrow> (c # s) # ss))"

fun join_path :: "string list \<Rightarrow> string" where
  "join_path [] = []"
| "join_path [s] = s"
| "join_path (s # t # ss) = s @ CHR ''.'' # join_path (t # ss)"

definition is_index :: "string \<Rightarrow> bool" where
  "is_index s = (s \<noteq> [] \<and> list_all (\<lambda>c. c \<in> set ''0123456789'') s)"

definition is_index_indicator :: "string \<Rightarrow> bool" where
  "is_index_indicator s = (2 \<le> length s \<and> hd s = CHR ''{'' \<and> last s = CHR ''}'')"

definition nat_of_digits :: "string \<Rightarrow> nat" where
  "nat_of_digits s = fold (\<lambda>c n. 10 * n + (of_char c - 48)) s 0"

fun digits_of_nat :: "nat \<Rightarrow> string" where
  "digits_of_nat n =
     (if n < 10 then [char_of (48 + n)]
      else digits_of_nat (n div 10) @ [char_of (48 + n mod 10)])"

text \<open>Modelled from the spec: \<^verbatim>\<open>withoutIndex(path)\<close> strips all row indices.\<close>

definition codec_getKeyWithoutIndex :: "string \<Rightarrow> string" where
  "codec_getKeyWithoutIndex path = join_path (filter (\<lambda>s. \<not> is_index s) (split_path path))"

text \<open>
  Modelled from the spec: \<^verbatim>\<open>withoutIndexIndicators(path)\<close> strips placeholder markers
  only.
\<close>

definition codec_getKeyWithoutIndexIndicators :: "string \<Rightarrow> string" where
  "codec_getKeyWithoutIndexIndicators path =
     join_path (filter (\<lambda>s. \<not> is_index_indicator s) (split_path path))"

text \<open>
  Modelled from the spec: \<^verbatim>\<open>indexOf(path)\<close> extracts the indices in left-to-right order.
\<close>

definition codec_getKeyIndex :: "string \<Rightarrow> nat list" where
  "codec_getKeyIndex path = map nat_of_digits (filter is_index (split_path path))"

text \<open>
  Modelled from the spec: \<^verbatim>\<open>replaceIndicatorsWithIndexes(path, indices)\<close> substitutes
  the placeholders with the given indices in encounter order. The sagas have no branch
  for a failure of the codec, so it is a total function here: when the indices run out,
  the placeholders that remain are left as they are.
\<close>

fun replace_segments :: "string list \<Rightarrow> nat list \<Rightarrow> string list" where
  "replace_segments [] indexes = []"
| "replace_segments (s # ss) [] = s # ss"
| "replace_segments (s # ss) (i # indexes) =
     (if is_index_indicator s then digits_of_nat i # replace_segments ss indexes
      else s # replace_segments ss (i # indexes))"

definition codec_replaceIndexIndicatorsWithIndexes :: "string \<Rightarrow> nat list \<Rightarrow> string" where
  "codec_replaceIndexIndicatorsWithIndexes path indexes =
     join_path (replace_segments (split_path path) indexes)"

text \<open>
  Modelled from the spec: the Lookup Key (\<^verbatim>\<open>getAppListLookupKey\<close> of
  \<^verbatim>\<open>src/utils/applist\<close>, which is not among the sources), a string that is a function
  of the id and of the mapping: the id alone without a mapping, the id and the entries
  of the mapping otherwise.
\<close>

definition resolver_getAppListLookupKey :: "string option \<Rightarrow> IMapping option \<Rightarrow> string" where
  "resolver_getAppListLookupKey id' mapping' =
     (case id' of None \<Rightarrow> [] | Some i \<Rightarrow> i) @
     (case mapping' of
        None \<Rightarrow> []
      | Some m \<Rightarrow> CHR '':'' # concat (map (\<lambda>(k, v). k @ CHR ''='' # v @ [CHR '';'']) m))"

text \<open>
  Modelled from the spec: the Option-List Lookup Resolver (\<^verbatim>\<open>getAppListLookupKeys\<close>
  of \<^verbatim>\<open>src/utils/applist\<close>, which is not among the sources), for a form with one
  repeating group, of which \<open>rows\<close> is the number of rows. A component whose mapping
  has no placeholder gives one concrete key and no template key; a component whose
  mapping has a placeholder gives one concrete key per row of the group, and the
  template key that keeps the placeholders.
\<close>

definition resolver_getAppListLookupKeys ::
  "string option \<Rightarrow> IMapping option \<Rightarrow> bool option \<Rightarrow> nat \<Rightarrow> IAppListLookupKeys" where
  "resolver_getAppListLookupKeys id' mapping' secure' rows =
     (let md = \<lparr>id_md = id', mapping_md = mapping', secure_md = secure'\<rparr> in
      case mapping' of
        None \<Rightarrow> \<lparr>keys = Some [md], keyWithIndexIndicator = None\<rparr>
      | Some m \<Rightarrow>
          if list_ex (\<lambda>(k, v). list_ex is_index_indicator (split_path k)) m
          then \<lparr>keys = Some (map (\<lambda>row. md\<lparr>mapping_md := Some (map (\<lambda>(k, v).
                         (codec_replaceIndexIndicatorsWithIndexes k [row], v)) m)\<rparr>)
                       [0..<rows]),
                keyWithIndexIndicator = Some md\<rparr>
          else \<lparr>keys = Some [md], keyWithIndexIndicator = None\<rparr>)"




section \<open>Notions of the properties\<close>

text \<open>
  A stored app list depends on the changed field when its mapping has the field among
  its keys; it is then fetched again with its own id, mapping and secure flag.
\<close>

definition existing_matches :: "string \<Rightarrow> IAppListsMetaData \<Rightarrow> bool" where
  "existing_matches field appList =
     (case mapping_md appList of None \<Rightarrow> False | Some m \<Rightarrow> field \<in> set (map fst m))"

definition refetch_args :: "IAppListsMetaData \<Rightarrow> IFetchSpecificAppListSaga" where
  "refetch_args appList =
     \<lparr>appListId_arg = id_md appList, dataMapping = mapping_md appList,
      secure_arg = secure_md appList\<rparr>"

text \<open>
  The occurrences of lookup keys in one pass of \<^verbatim>\<open>fetchAppListsSaga\<close>, in traversal
  order: every key that the resolver returns for every component of every layout,
  together with the \<^verbatim>\<open>appListId\<close> of the component.
\<close>

definition element_occurrences ::
  "(string option \<Rightarrow> IMapping option \<Rightarrow> bool option \<Rightarrow> 'r \<Rightarrow> IAppListLookupKeys)
   \<Rightarrow> 'r \<Rightarrow> ILayoutCompList \<Rightarrow> (string option \<times> IAppListsMetaData) list" where
  "element_occurrences getAppListLookupKeys repeatingGroups element =
     map (Pair (appListId element))
       (case keys (getAppListLookupKeys (appListId element) (mapping element)
                     (secure element) repeatingGroups) of
          None \<Rightarrow> []
        | Some ks \<Rightarrow> ks)"

definition lookup_occurrences ::
  "(string option \<Rightarrow> IMapping option \<Rightarrow> bool option \<Rightarrow> 'r \<Rightarrow> IAppListLookupKeys)
   \<Rightarrow> (string \<times> ILayoutCompList list) list \<Rightarrow> 'r \<Rightarrow> (string option \<times> IAppListsMetaData) list" where
  "lookup_occurrences getAppListLookupKeys layouts repeatingGroups =
     concat (map (element_occurrences getAppListLookupKeys repeatingGroups)
               (concat (map snd layouts)))"

text \<open>The lookup key of an occurrence, and the fork it triggers when it is not skipped.\<close>

definition occurrence_key ::
  "(string option \<Rightarrow> IMapping option \<Rightarrow> string) \<Rightarrow> string option \<times> IAppListsMetaData \<Rightarrow> string" where
  "occurrence_key getAppListLookupKey occ =
     getAppListLookupKey (id_md (snd occ)) (mapping_md (snd occ))"

definition occurrence_fork :: "string option \<times> IAppListsMetaData \<Rightarrow> IFetchSpecificAppListSaga" where
  "occurrence_fork occ =
     \<lparr>appListId_arg = fst occ, dataMapping = mapping_md (snd occ),
      secure_arg = secure_md (snd occ)\<rparr>"

text \<open>
  The first occurrences in a list: the elements that no earlier element of the list
  shares its key with.
\<close>

definition first_occurrences :: "('a \<Rightarrow> 'k) \<Rightarrow> 'a list \<Rightarrow> 'a list" where
  "first_occurrences key xs =
     map (\<lambda>i. xs ! i) (filter (\<lambda>i. key (xs ! i) \<notin> key ` set (take i xs)) [0..<length xs])"

text \<open>
  The template keys of one pass: the \<^verbatim>\<open>keyWithIndexIndicator\<close> of every component of
  every layout for which the resolver returns one, in traversal order.
\<close>

definition element_templates ::
  "(string option \<Rightarrow> IMapping option \<Rightarrow> bool option \<Rightarrow> 'r \<Rightarrow> IAppListLookupKeys)
   \<Rightarrow> 'r \<Rightarrow> ILayoutCompList \<Rightarrow> IAppListsMetaData list" where
  "element_templates getAppListLookupKeys repeatingGroups element =
     (case keyWithIndexIndicator (getAppListLookupKeys (appListId element) (mapping element)
             (secure element) repeatingGroups) of
        None \<Rightarrow> []
      | Some k \<Rightarrow> [k])"

definition template_keys ::
  "(string option \<Rightarrow> IMapping option \<Rightarrow> bool option \<Rightarrow> 'r \<Rightarrow> IAppListLookupKeys)
   \<Rightarrow> (string \<times> ILayoutCompList list) list \<Rightarrow> 'r \<Rightarrow> IAppListsMetaData list" where
  "template_keys getAppListLookupKeys layouts repeatingGroups =
     concat (map (element_templates getAppListLookupKeys repeatingGroups)
               (concat (map snd layouts)))"

section \<open>Properties of the validation types\<close>

text \<open>
  C8. \<open>BackendValidationSeverity\<close> maps \<open>Error\<close> to 1, \<open>Warning\<close> to 2,
  \<open>Informational\<close> to 3 and \<open>Success\<close> to 5; the enum has these four members and no
  other, so 1, 2, 3 and 5 are the only severity values it defines.
\<close>

theorem BackendValidationSeverity_values:
  "BackendValidationSeverity_value Error = 1
   \<and> BackendValidationSeverity_value Warning = 2
   \<and> BackendValidationSeverity_value Informational = 3
   \<and> BackendValidationSeverity_value Success = 5
   \<and> (UNIV :: BackendValidationSeverity set) = {Error, Warning, Informational, Success}
   \<and> range BackendValidationSeverity_value = {1, 2, 3, 5}"
proof -
  have univ: "(UNIV :: BackendValidationSeverity set) = {Error, Warning, Informational, Success}"
  proof
    show "UNIV \<subseteq> {Error, Warning, Informational, Success}"
    proof
      fix s :: BackendValidationSeverity
      show "s \<in> {Error, Warning, Informational, Success}" by (cases s) simp_all
    qed
  qed simp
  have "range BackendValidationSeverity_value = BackendValidationSeverity_value ` {Error, Warning, Informational, Success}"
    by (simp only: univ)
  then have "range BackendValidationSeverity_value = {1, 2, 3, 5}" by simp
  with univ show ?thesis by simp
qed

text \<open>
  C7. Each of the six atomic category flags (\<open>Schema\<close>, \<open>Component\<close>, \<open>Expression\<close>,
  \<open>CustomBackend\<close>, \<open>Required\<close>, \<open>Backend\<close>) has exactly one bit set, that is, is a
  power of two, and two different atomic flags have no bit in common.
\<close>

theorem ValidationMask_atomic_flags:
  "(\<forall>m \<in> set atomic_categories.
      length (bits_set (ValidationMask_value m)) = 1
      \<and> (\<exists>n < 16. ValidationMask_value m = push_bit n 1))
   \<and> (\<forall>a \<in> set atomic_categories. \<forall>b \<in> set atomic_categories.
        a \<noteq> b \<longrightarrow> ValidationMask_value a AND ValidationMask_value b = 0)"
proof -
  have one: "length (bits_set (ValidationMask_value m)) = 1" if "m \<in> set atomic_categories" for m
  proof -
    have "length (bits_set (ValidationMask_value Schema)) = 1" by code_simp
    moreover have "length (bits_set (ValidationMask_value Component)) = 1" by code_simp
    moreover have "length (bits_set (ValidationMask_value Expression)) = 1" by code_simp
    moreover have "length (bits_set (ValidationMask_value CustomBackend)) = 1" by code_simp
    moreover have "length (bits_set (ValidationMask_value Required)) = 1" by code_simp
    moreover have "length (bits_set (ValidationMask_value Backend)) = 1" by code_simp
    ultimately show ?thesis
      using that unfolding atomic_categories_def by (metis empty_iff empty_set set_ConsD)
  qed
  have pow: "\<exists>n < 16. ValidationMask_value m = push_bit n 1" if "m \<in> set atomic_categories" for m
  proof -
    have "ValidationMask_value Schema = push_bit 0 1" by simp
    moreover have "ValidationMask_value Component = push_bit 1 1" by simp
    moreover have "ValidationMask_value Expression = push_bit 2 1" by simp
    moreover have "ValidationMask_value CustomBackend = push_bit 3 1" by simp
    moreover have "ValidationMask_value Required = push_bit 14 1" by simp
    moreover have "ValidationMask_value Backend = push_bit 15 1" by simp
    moreover have "(0::nat) < 16" "(1::nat) < 16" "(2::nat) < 16" "(3::nat) < 16" "(14::nat) < 16" "(15::nat) < 16"
      by simp_all
    ultimately show ?thesis
      using that unfolding atomic_categories_def by (metis empty_iff empty_set set_ConsD)
  qed
  have disj: "ValidationMask_value a AND ValidationMask_value b = 0"
    if "a \<in> set atomic_categories" "b \<in> set atomic_categories" "a \<noteq> b" for a b
    using that by (auto simp: atomic_categories_def)
  from one pow disj show ?thesis by blast
qed

theorem ValidationMask_atomic_flags_witness:
  "Schema \<in> set atomic_categories \<and> Required \<in> set atomic_categories \<and> Schema \<noteq> Required
   \<and> length (bits_set (ValidationMask_value Schema)) = 1
   \<and> length (bits_set (ValidationMask_value Required)) = 1
   \<and> ValidationMask_value Schema AND ValidationMask_value Required = 0"
  using ValidationMask_atomic_flags by (simp add: atomic_categories_def)

text \<open>
  C3, as stated, fails for \<open>AllExceptRequired\<close>: it is not the bitwise OR of \<open>Schema\<close>,
  \<open>Component\<close>, \<open>Expression\<close> and \<open>CustomBackend\<close> (which is \<open>0b1111\<close>), and its bits 4
  to 13 belong to no atomic category.
\<close>

theorem ValidationMask_AllExceptRequired_counterexample:
  "ValidationMask_value AllExceptRequired \<noteq>
     (ValidationMask_value Schema OR ValidationMask_value Component
      OR ValidationMask_value Expression OR ValidationMask_value CustomBackend)
   \<and> unowned_bits (ValidationMask_value AllExceptRequired) = 0b0011111111110000"
  by (simp add: unowned_bits_def category_bits_def atomic_categories_def)

text \<open>
  C3, amended. \<open>AllExceptRequired\<close> is the mask of the fourteen bits below the bit of
  \<open>Required\<close>: it contains \<open>Schema | Component | Expression | CustomBackend\<close>, and bits 4
  to 13 beside them, which no atomic category owns, and it contains neither \<open>Required\<close>
  nor \<open>Backend\<close>. \<open>All\<close> is \<open>AllExceptRequired | Required\<close>, and
  \<open>AllIncludingBackend\<close> is \<open>All | Backend\<close>, that is, the six atomic flags and bits 4
  to 13.
\<close>

theorem ValidationMask_combinations:
  "ValidationMask_value AllExceptRequired = mask 14
   \<and> (ValidationMask_value Schema OR ValidationMask_value Component
        OR ValidationMask_value Expression OR ValidationMask_value CustomBackend)
       AND ValidationMask_value AllExceptRequired
      = (ValidationMask_value Schema OR ValidationMask_value Component
        OR ValidationMask_value Expression OR ValidationMask_value CustomBackend)
   \<and> ValidationMask_value AllExceptRequired AND ValidationMask_value Required = 0
   \<and> ValidationMask_value AllExceptRequired AND ValidationMask_value Backend = 0
   \<and> unowned_bits (ValidationMask_value AllExceptRequired) = 0b0011111111110000
   \<and> ValidationMask_value All_mask =
       (ValidationMask_value AllExceptRequired OR ValidationMask_value Required)
   \<and> ValidationMask_value AllIncludingBackend =
       (ValidationMask_value All_mask OR ValidationMask_value Backend)
   \<and> ValidationMask_value AllIncludingBackend =
       (category_bits OR 0b0011111111110000)"
  by (simp add: unowned_bits_def category_bits_def atomic_categories_def mask_eq_exp_minus_1)

section \<open>Properties of the queue slice\<close>

text \<open>
  C10. For every queue state and every one of the five error actions
  (\<open>appTaskQueueError\<close>, \<open>userTaskQueueError\<close>, \<open>dataTaskQueueError\<close>,
  \<open>infoTaskQueueError\<close>, \<open>statelessQueueError\<close>), the reducer sets the \<open>error\<close> field of
  the task the action names to the error of the payload, and nothing else: the \<open>isDone\<close>
  flag of that task and the whole state of the other four tasks are as before.
\<close>

theorem queue_error_reducers_frame:
  fixes state :: "'e IQueueState"
  shows
  "(let state' = queue_reducer state (appTaskQueueError p) in
      error (appTask state') = payload_error p \<and> isDone (appTask state') = isDone (appTask state)
      \<and> dataTask state' = dataTask state \<and> userTask state' = userTask state
      \<and> infoTask state' = infoTask state \<and> stateless state' = stateless state)
   \<and> (let state' = queue_reducer state (userTaskQueueError p) in
      error (userTask state') = payload_error p \<and> isDone (userTask state') = isDone (userTask state)
      \<and> dataTask state' = dataTask state \<and> appTask state' = appTask state
      \<and> infoTask state' = infoTask state \<and> stateless state' = stateless state)
   \<and> (let state' = queue_reducer state (dataTaskQueueError p) in
      error (dataTask state') = payload_error p \<and> isDone (dataTask state') = isDone (dataTask state)
      \<and> appTask state' = appTask state \<and> userTask state' = userTask state
      \<and> infoTask state' = infoTask state \<and> stateless state' = stateless state)
   \<and> (let state' = queue_reducer state (infoTaskQueueError p) in
      error (infoTask state') = payload_error p \<and> isDone (infoTask state') = isDone (infoTask state)
      \<and> dataTask state' = dataTask state \<and> appTask state' = appTask state
      \<and> userTask state' = userTask state \<and> stateless state' = stateless state)
   \<and> (let state' = queue_reducer state (statelessQueueError p) in
      error (stateless state') = payload_error p \<and> isDone (stateless state') = isDone (stateless state)
      \<and> dataTask state' = dataTask state \<and> appTask state' = appTask state
      \<and> userTask state' = userTask state \<and> infoTask state' = infoTask state)"
  by (simp add: Let_def)

section \<open>Properties of the app-list sagas\<close>

subsection \<open>Effect lists\<close>

lemma forked_append: "forked (xs @ ys) = forked xs @ forked ys"
  by (induction xs rule: forked.induct) simp_all

lemma forked_map_Fork: "forked (map (\<lambda>x. Fork (f x)) xs) = map f xs"
  by (induction xs) simp_all

lemma dispatched_append: "dispatched (xs @ ys) = dispatched xs @ dispatched ys"
  by (induction xs rule: dispatched.induct) simp_all

lemma dispatched_map_Fork: "dispatched (map (\<lambda>x. Fork (f x)) xs) = []"
  by (induction xs) simp_all

subsection \<open>fetchSpecificAppListSaga\<close>






subsection \<open>checkIfAppListsShouldRefetchSaga\<close>

lemma refetch_existing_step_eq:
  "refetch_existing_step field entry (b, ys) =
     (if existing_matches field (snd entry) then (True, ys @ [Fork (refetch_args (snd entry))])
      else (b, ys))"
  by (simp add: refetch_existing_step_def existing_matches_def refetch_args_def
      split: option.splits)

lemma fold_refetch_existing_step:
  "fold (refetch_existing_step field) appLists (b, ys) =
     (b \<or> list_ex (existing_matches field) (map snd appLists),
      ys @ map (\<lambda>entry. Fork (refetch_args (snd entry)))
             (filter (\<lambda>entry. existing_matches field (snd entry)) appLists))"
proof (induction appLists arbitrary: b ys)
  case Nil
  then show ?case by simp
next
  case (Cons entry appLists)
  show ?case
    by (cases "existing_matches field (snd entry)")
       (simp_all add: refetch_existing_step_eq Cons.IH)
qed












text \<open>
  C2. When the mapping of at least one stored app list has the changed field among its
  keys, the saga yields its two \<^verbatim>\<open>select\<close> effects and then one fork for each such
  stored app list, in the order of the store, with the id, mapping and secure flag of
  that entry, and nothing else: the run is the same whatever the template keys are, as
  if there were none. So a template is looked at only when no stored mapping has the
  changed field.
\<close>

theorem refetch_exact_precedence:
  assumes "list_ex (existing_matches field) (map snd appLists)"
  shows "checkIfAppListsShouldRefetchSaga getKeyWithoutIndexIndicators getKeyWithoutIndex
           getKeyIndex replaceIndexIndicatorsWithIndexes field appLists templates
         = ([Select appListsSelector, Select appListsWithIndexIndicatorsSelector] @
            map (\<lambda>entry. Fork (refetch_args (snd entry)))
              (filter (\<lambda>entry. existing_matches field (snd entry)) appLists),
            Inr ())
       \<and> checkIfAppListsShouldRefetchSaga getKeyWithoutIndexIndicators getKeyWithoutIndex
           getKeyIndex replaceIndexIndicatorsWithIndexes field appLists templates
         = checkIfAppListsShouldRefetchSaga getKeyWithoutIndexIndicators getKeyWithoutIndex
           getKeyIndex replaceIndexIndicatorsWithIndexes field appLists []"
  using assms
  by (simp add: checkIfAppListsShouldRefetchSaga_def fold_refetch_existing_step Let_def)

text \<open>
  The run of C2 where the stored list \<open>list1\<close> has the changed field \<open>persons.1.name\<close>
  in its mapping and a template of \<open>list1\<close> matches the field too: the stored list is
  fetched again, once, and the template is not.
\<close>

theorem refetch_exact_precedence_witness:
  "list_ex (existing_matches ''persons.1.name'')
     (map snd
       [(''list1:persons.1.name=name;'',
         \<lparr>id_md = Some ''list1'', mapping_md = Some [(''persons.1.name'', ''name'')],
          secure_md = None\<rparr>),
        (''list2'', \<lparr>id_md = Some ''list2'', mapping_md = None, secure_md = None\<rparr>)])
   \<and> template_matches codec_getKeyWithoutIndexIndicators codec_getKeyWithoutIndex
       ''persons.1.name''
       \<lparr>id_md = Some ''list1'', mapping_md = Some [(''persons.{0}.name'', ''name'')],
        secure_md = None\<rparr>
   \<and> (checkIfAppListsShouldRefetchSaga codec_getKeyWithoutIndexIndicators
       codec_getKeyWithoutIndex codec_getKeyIndex codec_replaceIndexIndicatorsWithIndexes
       ''persons.1.name''
       [(''list1:persons.1.name=name;'',
         \<lparr>id_md = Some ''list1'', mapping_md = Some [(''persons.1.name'', ''name'')],
          secure_md = None\<rparr>),
        (''list2'', \<lparr>id_md = Some ''list2'', mapping_md = None, secure_md = None\<rparr>)]
       [\<lparr>id_md = Some ''list1'', mapping_md = Some [(''persons.{0}.name'', ''name'')],
         secure_md = None\<rparr>] :: (unit, unit, unit) saga)
     = ([Select appListsSelector, Select appListsWithIndexIndicatorsSelector,
         Fork \<lparr>appListId_arg = Some ''list1'',
               dataMapping = Some [(''persons.1.name'', ''name'')], secure_arg = None\<rparr>],
        Inr ())"
proof -
  let ?appLists = "[(''list1:persons.1.name=name;'',
         \<lparr>id_md = Some ''list1'', mapping_md = Some [(''persons.1.name'', ''name'')],
          secure_md = None\<rparr>),
        (''list2'', \<lparr>id_md = Some ''list2'', mapping_md = None, secure_md = None\<rparr>)]"
  let ?t = "\<lparr>id_md = Some ''list1'', mapping_md = Some [(''persons.{0}.name'', ''name'')],
        secure_md = None\<rparr>"
  have h: "list_ex (existing_matches ''persons.1.name'') (map snd ?appLists)"
    by code_simp
  have t: "template_matches codec_getKeyWithoutIndexIndicators codec_getKeyWithoutIndex
       ''persons.1.name'' ?t"
    by code_simp
  have "(checkIfAppListsShouldRefetchSaga codec_getKeyWithoutIndexIndicators
       codec_getKeyWithoutIndex codec_getKeyIndex codec_replaceIndexIndicatorsWithIndexes
       ''persons.1.name'' ?appLists [?t] :: (unit, unit, unit) saga)
     = ([Select appListsSelector, Select appListsWithIndexIndicatorsSelector] @
            map (\<lambda>entry. Fork (refetch_args (snd entry)))
              (filter (\<lambda>entry. existing_matches ''persons.1.name'' (snd entry)) ?appLists),
            Inr ())"
    using refetch_exact_precedence [OF h, where ?'a = unit and ?'b = unit] by blast
  also have "\<dots> = ([Select appListsSelector, Select appListsWithIndexIndicatorsSelector,
         Fork \<lparr>appListId_arg = Some ''list1'',
               dataMapping = Some [(''persons.1.name'', ''name'')], secure_arg = None\<rparr>],
        Inr ())"
    by code_simp
  finally show ?thesis using h t by blast
qed




subsection \<open>fetchAppListsSaga\<close>

lemma first_occurrences_Nil: "first_occurrences key [] = []"
  by (simp add: first_occurrences_def)

lemma first_occurrences_snoc:
  "first_occurrences key (xs @ [x]) =
     first_occurrences key xs @ (if key x \<in> key ` set xs then [] else [x])"
proof -
  let ?P = "\<lambda>zs i. key (zs ! i) \<notin> key ` set (take i zs)"
  have l: "[0..<length (xs @ [x])] = [0..<length xs] @ [length xs]" by simp
  have f: "filter (?P (xs @ [x])) [0..<length xs] = filter (?P xs) [0..<length xs]"
    by (rule filter_cong) (simp_all add: nth_append)
  have m: "map (\<lambda>i. (xs @ [x]) ! i) (filter (?P xs) [0..<length xs])
           = map (\<lambda>i. xs ! i) (filter (?P xs) [0..<length xs])"
    by (rule map_cong) (simp_all add: nth_append)
  have old: "map (\<lambda>i. (xs @ [x]) ! i) (filter (?P (xs @ [x])) [0..<length xs])
             = first_occurrences key xs"
    unfolding first_occurrences_def by (simp only: f m)
  have new: "map (\<lambda>i. (xs @ [x]) ! i) (filter (?P (xs @ [x])) [length xs])
             = (if key x \<in> key ` set xs then [] else [x])"
    by simp
  have "first_occurrences key (xs @ [x])
        = map (\<lambda>i. (xs @ [x]) ! i) (filter (?P (xs @ [x])) [0..<length xs])
          @ map (\<lambda>i. (xs @ [x]) ! i) (filter (?P (xs @ [x])) [length xs])"
    unfolding first_occurrences_def l by (simp only: filter_append map_append)
  then show ?thesis by (simp only: old new)
qed

lemma first_occurrences_keys:
  "set (map key (first_occurrences key xs)) = key ` set xs
   \<and> distinct (map key (first_occurrences key xs))"
proof (induction xs rule: rev_induct)
  case Nil
  then show ?case by (simp add: first_occurrences_Nil)
next
  case (snoc x xs)
  then show ?case by (auto simp: first_occurrences_snoc)
qed

lemma fetch_key_step_invariant:
  fixes st :: "('e, 'l) fetch_locals"
  assumes "fetchedAppLists st =
             map (occurrence_key gk) (first_occurrences (occurrence_key gk)
               (filter (\<lambda>occ. truthy (fst occ)) xs))"
    and "yielded st = ini @ map (\<lambda>occ. Fork (occurrence_fork occ))
               (first_occurrences (occurrence_key gk) (filter (\<lambda>occ. truthy (fst occ)) xs))"
  shows "fetchedAppLists (fetch_key_step gk a k st) =
             map (occurrence_key gk) (first_occurrences (occurrence_key gk)
               (filter (\<lambda>occ. truthy (fst occ)) (xs @ [(a, k)])))
       \<and> yielded (fetch_key_step gk a k st) = ini @ map (\<lambda>occ. Fork (occurrence_fork occ))
               (first_occurrences (occurrence_key gk)
                  (filter (\<lambda>occ. truthy (fst occ)) (xs @ [(a, k)])))
       \<and> appListsWithIndexIndicators (fetch_key_step gk a k st) =
           appListsWithIndexIndicators st"
proof -
  let ?ys = "filter (\<lambda>occ. truthy (fst occ)) xs"
  have seen: "set (fetchedAppLists st) = occurrence_key gk ` set ?ys"
    using first_occurrences_keys [of "occurrence_key gk" ?ys] by (simp add: assms(1))
  have key: "gk (id_md k) (mapping_md k) = occurrence_key gk (a, k)"
    by (simp add: occurrence_key_def)
  show ?thesis
  proof (cases "truthy a")
    case False
    then show ?thesis using assms by (simp add: fetch_key_step_def Let_def)
  next
    case True
    then show ?thesis
      using assms seen
      by (simp add: fetch_key_step_def Let_def key first_occurrences_snoc occurrence_fork_def)
  qed
qed

lemma fold_fetch_key_step_invariant:
  fixes st :: "('e, 'l) fetch_locals"
  assumes "fetchedAppLists st =
             map (occurrence_key gk) (first_occurrences (occurrence_key gk)
               (filter (\<lambda>occ. truthy (fst occ)) xs))"
    and "yielded st = ini @ map (\<lambda>occ. Fork (occurrence_fork occ))
               (first_occurrences (occurrence_key gk) (filter (\<lambda>occ. truthy (fst occ)) xs))"
  shows "fetchedAppLists (fold (fetch_key_step gk a) ks st) =
             map (occurrence_key gk) (first_occurrences (occurrence_key gk)
               (filter (\<lambda>occ. truthy (fst occ)) (xs @ map (Pair a) ks)))
       \<and> yielded (fold (fetch_key_step gk a) ks st) = ini @ map (\<lambda>occ. Fork (occurrence_fork occ))
               (first_occurrences (occurrence_key gk)
                  (filter (\<lambda>occ. truthy (fst occ)) (xs @ map (Pair a) ks)))
       \<and> appListsWithIndexIndicators (fold (fetch_key_step gk a) ks st) =
           appListsWithIndexIndicators st"
  using assms
proof (induction ks arbitrary: st xs)
  case Nil
  then show ?case by simp
next
  case (Cons k ks)
  note step = fetch_key_step_invariant [OF Cons.prems, of a k]
  have "fetchedAppLists (fold (fetch_key_step gk a) ks (fetch_key_step gk a k st)) =
             map (occurrence_key gk) (first_occurrences (occurrence_key gk)
               (filter (\<lambda>occ. truthy (fst occ)) ((xs @ [(a, k)]) @ map (Pair a) ks)))
       \<and> yielded (fold (fetch_key_step gk a) ks (fetch_key_step gk a k st)) = ini @ map (\<lambda>occ. Fork (occurrence_fork occ))
               (first_occurrences (occurrence_key gk)
                  (filter (\<lambda>occ. truthy (fst occ)) ((xs @ [(a, k)]) @ map (Pair a) ks)))
       \<and> appListsWithIndexIndicators (fold (fetch_key_step gk a) ks (fetch_key_step gk a k st)) =
           appListsWithIndexIndicators (fetch_key_step gk a k st)"
    by (rule Cons.IH) (use step in simp_all)
  then show ?case using step by simp
qed

lemma fetch_element_step_invariant:
  fixes st :: "('e, 'l) fetch_locals"
  assumes "fetchedAppLists st =
             map (occurrence_key gk) (first_occurrences (occurrence_key gk)
               (filter (\<lambda>occ. truthy (fst occ)) xs))"
    and "yielded st = ini @ map (\<lambda>occ. Fork (occurrence_fork occ))
               (first_occurrences (occurrence_key gk) (filter (\<lambda>occ. truthy (fst occ)) xs))"
  shows "fetchedAppLists (fetch_element_step gks gk rg element st) =
             map (occurrence_key gk) (first_occurrences (occurrence_key gk)
               (filter (\<lambda>occ. truthy (fst occ)) (xs @ element_occurrences gks rg element)))
       \<and> yielded (fetch_element_step gks gk rg element st) = ini @ map (\<lambda>occ. Fork (occurrence_fork occ))
               (first_occurrences (occurrence_key gk)
                  (filter (\<lambda>occ. truthy (fst occ)) (xs @ element_occurrences gks rg element)))
       \<and> appListsWithIndexIndicators (fetch_element_step gks gk rg element st) =
           appListsWithIndexIndicators st @ element_templates gks rg element"
proof -
  let ?r = "gks (appListId element) (mapping element) (secure element) rg"
  let ?st1 = "case keyWithIndexIndicator ?r of
                   Some k \<Rightarrow> st\<lparr>appListsWithIndexIndicators :=
                                  appListsWithIndexIndicators st @ [k]\<rparr>
                 | None \<Rightarrow> st"
  have f1: "fetchedAppLists ?st1 = fetchedAppLists st" by (simp split: option.splits)
  have y1: "yielded ?st1 = yielded st" by (simp split: option.splits)
  have w1: "appListsWithIndexIndicators ?st1 =
              appListsWithIndexIndicators st @ element_templates gks rg element"
    by (simp add: element_templates_def split: option.splits)
  show ?thesis
  proof (cases "keys ?r")
    case None
    then show ?thesis
      using assms f1 y1 w1
      by (simp add: fetch_element_step_def Let_def element_occurrences_def)
  next
    case (Some ks)
    have inv: "fetchedAppLists (fold (fetch_key_step gk (appListId element)) ks ?st1) =
             map (occurrence_key gk) (first_occurrences (occurrence_key gk)
               (filter (\<lambda>occ. truthy (fst occ)) (xs @ map (Pair (appListId element)) ks)))
       \<and> yielded (fold (fetch_key_step gk (appListId element)) ks ?st1) = ini @ map (\<lambda>occ. Fork (occurrence_fork occ))
               (first_occurrences (occurrence_key gk)
                  (filter (\<lambda>occ. truthy (fst occ)) (xs @ map (Pair (appListId element)) ks)))
       \<and> appListsWithIndexIndicators (fold (fetch_key_step gk (appListId element)) ks ?st1) =
           appListsWithIndexIndicators ?st1"
      by (rule fold_fetch_key_step_invariant) (simp_all only: f1 y1 assms)
    have eq: "fetch_element_step gks gk rg element st =
                fold (fetch_key_step gk (appListId element)) ks ?st1"
      by (cases ks) (simp_all add: fetch_element_step_def Let_def Some)
    have occ: "element_occurrences gks rg element = map (Pair (appListId element)) ks"
      by (simp add: element_occurrences_def Some)
    show ?thesis unfolding eq occ using inv w1 by simp
  qed
qed

lemma fold_fetch_element_step_invariant:
  fixes st :: "('e, 'l) fetch_locals"
  assumes "fetchedAppLists st =
             map (occurrence_key gk) (first_occurrences (occurrence_key gk)
               (filter (\<lambda>occ. truthy (fst occ)) xs))"
    and "yielded st = ini @ map (\<lambda>occ. Fork (occurrence_fork occ))
               (first_occurrences (occurrence_key gk) (filter (\<lambda>occ. truthy (fst occ)) xs))"
  shows "fetchedAppLists (fold (fetch_element_step gks gk rg) elements st) =
             map (occurrence_key gk) (first_occurrences (occurrence_key gk)
               (filter (\<lambda>occ. truthy (fst occ))
                  (xs @ concat (map (element_occurrences gks rg) elements))))
       \<and> yielded (fold (fetch_element_step gks gk rg) elements st) =
           ini @ map (\<lambda>occ. Fork (occurrence_fork occ))
               (first_occurrences (occurrence_key gk)
                  (filter (\<lambda>occ. truthy (fst occ))
                     (xs @ concat (map (element_occurrences gks rg) elements))))
       \<and> appListsWithIndexIndicators (fold (fetch_element_step gks gk rg) elements st) =
           appListsWithIndexIndicators st @ concat (map (element_templates gks rg) elements)"
  using assms
proof (induction elements arbitrary: st xs)
  case Nil
  then show ?case by simp
next
  case (Cons element elements)
  note step = fetch_element_step_invariant [OF Cons.prems, of gks rg element]
  have "fetchedAppLists (fold (fetch_element_step gks gk rg) elements
            (fetch_element_step gks gk rg element st)) =
             map (occurrence_key gk) (first_occurrences (occurrence_key gk)
               (filter (\<lambda>occ. truthy (fst occ))
                  ((xs @ element_occurrences gks rg element)
                     @ concat (map (element_occurrences gks rg) elements))))
       \<and> yielded (fold (fetch_element_step gks gk rg) elements
            (fetch_element_step gks gk rg element st)) =
           ini @ map (\<lambda>occ. Fork (occurrence_fork occ))
               (first_occurrences (occurrence_key gk)
                  (filter (\<lambda>occ. truthy (fst occ))
                     ((xs @ element_occurrences gks rg element)
                        @ concat (map (element_occurrences gks rg) elements))))
       \<and> appListsWithIndexIndicators (fold (fetch_element_step gks gk rg) elements
            (fetch_element_step gks gk rg element st)) =
           appListsWithIndexIndicators (fetch_element_step gks gk rg element st)
             @ concat (map (element_templates gks rg) elements)"
    by (rule Cons.IH) (use step in simp_all)
  then show ?case using step by simp
qed

lemma fold_layouts:
  "fold (\<lambda>(layoutId, elements). fold f elements) layouts st =
     fold f (concat (map snd layouts)) st"
  by (induction layouts arbitrary: st) (simp_all add: split_def)

lemma fetchAppListsSaga_loops_eq:
  "fetchedAppLists (fetchAppListsSaga_loops gks gk layouts rg :: ('e, 'l) fetch_locals) =
      map (occurrence_key gk) (first_occurrences (occurrence_key gk)
        (filter (\<lambda>occ. truthy (fst occ)) (lookup_occurrences gks layouts rg)))
   \<and> yielded (fetchAppListsSaga_loops gks gk layouts rg :: ('e, 'l) fetch_locals) =
      [SelectNotNull formLayoutSelector, SelectNotNull repeatingGroupsSelector] @
      map (\<lambda>occ. Fork (occurrence_fork occ)) (first_occurrences (occurrence_key gk)
        (filter (\<lambda>occ. truthy (fst occ)) (lookup_occurrences gks layouts rg)))
   \<and> appListsWithIndexIndicators (fetchAppListsSaga_loops gks gk layouts rg :: ('e, 'l) fetch_locals) =
      template_keys gks layouts rg"
proof -
  let ?st0 = "\<lparr>fetchedAppLists = [], appListsWithIndexIndicators = [],
        yielded = [SelectNotNull formLayoutSelector, SelectNotNull repeatingGroupsSelector]\<rparr>
        :: ('e, 'l) fetch_locals"
  have occ: "lookup_occurrences gks layouts rg =
        concat (map (element_occurrences gks rg) (concat (map snd layouts)))"
    by (simp add: lookup_occurrences_def)
  have tk: "template_keys gks layouts rg =
        concat (map (element_templates gks rg) (concat (map snd layouts)))"
    by (simp add: template_keys_def)
  have "fetchedAppLists (fold (fetch_element_step gks gk rg) (concat (map snd layouts)) ?st0) =
             map (occurrence_key gk) (first_occurrences (occurrence_key gk)
               (filter (\<lambda>occ. truthy (fst occ))
                  ([] @ concat (map (element_occurrences gks rg) (concat (map snd layouts))))))
       \<and> yielded (fold (fetch_element_step gks gk rg) (concat (map snd layouts)) ?st0) =
           [SelectNotNull formLayoutSelector, SelectNotNull repeatingGroupsSelector]
             @ map (\<lambda>occ. Fork (occurrence_fork occ))
               (first_occurrences (occurrence_key gk)
                  (filter (\<lambda>occ. truthy (fst occ))
                     ([] @ concat (map (element_occurrences gks rg) (concat (map snd layouts))))))
       \<and> appListsWithIndexIndicators (fold (fetch_element_step gks gk rg) (concat (map snd layouts)) ?st0) =
           appListsWithIndexIndicators ?st0 @ concat (map (element_templates gks rg) (concat (map snd layouts)))"
    by (rule fold_fetch_element_step_invariant) (simp_all add: first_occurrences_Nil)
  then show ?thesis
    by (simp add: fetchAppListsSaga_loops_def fold_layouts occ tk)
qed

text \<open>
  C1, as stated, fails for a component whose \<^verbatim>\<open>appListId\<close> is defined and empty: the
  resolver returns a lookup key for it, and the saga forks nothing, since the empty
  string is false in \<^verbatim>\<open>if (appListId && ...)\<close>.
\<close>

theorem fetchAppListsSaga_empty_appListId_counterexample:
  "appListId \<lparr>appListId = Some [], mapping = None, secure = None\<rparr> \<noteq> None
   \<and> lookup_occurrences resolver_getAppListLookupKeys
        [(''FormLayout'', [\<lparr>appListId = Some [], mapping = None, secure = None\<rparr>])] (0::nat)
      = [(Some [], \<lparr>id_md = Some [], mapping_md = None, secure_md = None\<rparr>)]
   \<and> forked (fst (fetchAppListsSaga resolver_getAppListLookupKeys resolver_getAppListLookupKey
        [(''FormLayout'', [\<lparr>appListId = Some [], mapping = None, secure = None\<rparr>])] (0::nat)
        :: (unit, unit, unit) saga)) = []"
  by code_simp

text \<open>
  C1, amended. One run of \<^verbatim>\<open>fetchAppListsSaga\<close> forks
  \<^verbatim>\<open>fetchSpecificAppListSaga\<close> exactly once for every distinct lookup key (computed by
  \<^verbatim>\<open>getAppListLookupKey\<close> from the id and the mapping of the resolved key) that occurs
  at a component with a non-empty \<^verbatim>\<open>appListId\<close>: the forks are those of the first
  occurrence of each such key in traversal order, with the \<^verbatim>\<open>appListId\<close> of the
  component and the mapping and secure flag of the resolved key; every later occurrence
  of the key is skipped. The lookup keys of the forks are pairwise distinct, they are
  all the lookup keys of such occurrences, and the number of forks is the number of
  these keys.
\<close>

theorem fetchAppListsSaga_forks_once_per_key:
  fixes getAppListLookupKeys :: "string option \<Rightarrow> IMapping option \<Rightarrow> bool option \<Rightarrow> 'r \<Rightarrow> IAppListLookupKeys"
  shows
  "forked (fst (fetchAppListsSaga getAppListLookupKeys getAppListLookupKey layouts
                  repeatingGroups :: ('e, 'l, unit) saga))
     = map occurrence_fork
         (first_occurrences (occurrence_key getAppListLookupKey)
            (filter (\<lambda>occ. truthy (fst occ))
               (lookup_occurrences getAppListLookupKeys layouts repeatingGroups)))
   \<and> distinct (map (occurrence_key getAppListLookupKey)
         (first_occurrences (occurrence_key getAppListLookupKey)
            (filter (\<lambda>occ. truthy (fst occ))
               (lookup_occurrences getAppListLookupKeys layouts repeatingGroups))))
   \<and> set (map (occurrence_key getAppListLookupKey)
         (first_occurrences (occurrence_key getAppListLookupKey)
            (filter (\<lambda>occ. truthy (fst occ))
               (lookup_occurrences getAppListLookupKeys layouts repeatingGroups))))
     = occurrence_key getAppListLookupKey `
         {occ \<in> set (lookup_occurrences getAppListLookupKeys layouts repeatingGroups).
            truthy (fst occ)}
   \<and> length (forked (fst (fetchAppListsSaga getAppListLookupKeys getAppListLookupKey layouts
                  repeatingGroups :: ('e, 'l, unit) saga)))
     = card (occurrence_key getAppListLookupKey `
         {occ \<in> set (lookup_occurrences getAppListLookupKeys layouts repeatingGroups).
            truthy (fst occ)})"
proof -
  let ?occs = "filter (\<lambda>occ. truthy (fst occ))
               (lookup_occurrences getAppListLookupKeys layouts repeatingGroups)"
  let ?K = "occurrence_key getAppListLookupKey"
  have s: "{occ \<in> set (lookup_occurrences getAppListLookupKeys layouts repeatingGroups).
            truthy (fst occ)} = set ?occs" by auto
  have a: "forked (fst (fetchAppListsSaga getAppListLookupKeys getAppListLookupKey layouts
                  repeatingGroups :: ('e, 'l, unit) saga))
     = map occurrence_fork (first_occurrences ?K ?occs)"
    using fetchAppListsSaga_loops_eq [where ?'e = 'e and ?'l = 'l, of getAppListLookupKeys
        getAppListLookupKey layouts repeatingGroups]
    by (simp add: fetchAppListsSaga_def Let_def forked_append forked_map_Fork)
  have b: "distinct (map ?K (first_occurrences ?K ?occs))"
    and c: "set (map ?K (first_occurrences ?K ?occs)) = ?K ` set ?occs"
    using first_occurrences_keys [of ?K ?occs] by simp_all
  have "length (first_occurrences ?K ?occs) = length (map ?K (first_occurrences ?K ?occs))"
    by simp
  also have "\<dots> = card (set (map ?K (first_occurrences ?K ?occs)))"
    using b by (simp only: distinct_card)
  finally have d: "length (first_occurrences ?K ?occs) = card (?K ` set ?occs)"
    by (simp only: c)
  show ?thesis unfolding s using a b c d by simp
qed

text \<open>
  The run of C1, amended, on the scenario of the specification: the list \<open>list1\<close>,
  mapped to \<open>persons.{0}.name\<close> in a group of three rows, on two pages, and a component
  that is no list. The saga forks three fetches, one per row, and none for the second
  component of the same list.
\<close>

theorem fetchAppListsSaga_forks_once_per_key_witness:
  "forked (fst (fetchAppListsSaga resolver_getAppListLookupKeys resolver_getAppListLookupKey
      [(''page1'',
        [\<lparr>appListId = Some ''list1'', mapping = Some [(''persons.{0}.name'', ''name'')],
          secure = None\<rparr>,
         \<lparr>appListId = None, mapping = None, secure = None\<rparr>]),
       (''page2'',
        [\<lparr>appListId = Some ''list1'', mapping = Some [(''persons.{0}.name'', ''name'')],
          secure = None\<rparr>])]
      (3::nat) :: (unit, unit, unit) saga))
   = [\<lparr>appListId_arg = Some ''list1'', dataMapping = Some [(''persons.0.name'', ''name'')],
       secure_arg = None\<rparr>,
      \<lparr>appListId_arg = Some ''list1'', dataMapping = Some [(''persons.1.name'', ''name'')],
       secure_arg = None\<rparr>,
      \<lparr>appListId_arg = Some ''list1'', dataMapping = Some [(''persons.2.name'', ''name'')],
       secure_arg = None\<rparr>]"
proof -
  let ?layouts = "[(''page1'',
        [\<lparr>appListId = Some ''list1'', mapping = Some [(''persons.{0}.name'', ''name'')],
          secure = None\<rparr>,
         \<lparr>appListId = None, mapping = None, secure = None\<rparr>]),
       (''page2'',
        [\<lparr>appListId = Some ''list1'', mapping = Some [(''persons.{0}.name'', ''name'')],
          secure = None\<rparr>])]"
  have "forked (fst (fetchAppListsSaga resolver_getAppListLookupKeys
          resolver_getAppListLookupKey ?layouts (3::nat) :: (unit, unit, unit) saga))
        = map occurrence_fork
            (first_occurrences (occurrence_key resolver_getAppListLookupKey)
               (filter (\<lambda>occ. truthy (fst occ))
                  (lookup_occurrences resolver_getAppListLookupKeys ?layouts (3::nat))))"
    using fetchAppListsSaga_forks_once_per_key
      [where ?'e = unit and ?'l = unit, of resolver_getAppListLookupKeys
        resolver_getAppListLookupKey ?layouts 3]
    by blast
  also have "\<dots> = [\<lparr>appListId_arg = Some ''list1'', dataMapping = Some [(''persons.0.name'', ''name'')],
       secure_arg = None\<rparr>,
      \<lparr>appListId_arg = Some ''list1'', dataMapping = Some [(''persons.1.name'', ''name'')],
       secure_arg = None\<rparr>,
      \<lparr>appListId_arg = Some ''list1'', dataMapping = Some [(''persons.2.name'', ''name'')],
       secure_arg = None\<rparr>]"
    by code_simp
  finally show ?thesis .
qed

text \<open>
  The store update of a run: the saga dispatches one action,
  \<open>setAppListsWithIndexIndicators\<close> with every template key of the pass, and this is the
  last effect it yields, after all its forks.
\<close>

lemma fetchAppListsSaga_store_update:
  fixes getAppListLookupKeys :: "string option \<Rightarrow> IMapping option \<Rightarrow> bool option \<Rightarrow> 'r \<Rightarrow> IAppListLookupKeys"
  shows
  "dispatched (fst (fetchAppListsSaga getAppListLookupKeys getAppListLookupKey layouts
                  repeatingGroups :: ('e, 'l, unit) saga))
     = [setAppListsWithIndexIndicators
          (template_keys getAppListLookupKeys layouts repeatingGroups)]
   \<and> last (fst (fetchAppListsSaga getAppListLookupKeys getAppListLookupKey layouts
                  repeatingGroups :: ('e, 'l, unit) saga))
     = Put (setAppListsWithIndexIndicators
          (template_keys getAppListLookupKeys layouts repeatingGroups))"
  using fetchAppListsSaga_loops_eq [where ?'e = 'e and ?'l = 'l, of getAppListLookupKeys
      getAppListLookupKey layouts repeatingGroups]
  by (simp add: fetchAppListsSaga_def Let_def dispatched_append dispatched_map_Fork)

end
